theory Spec2Isabelle
  imports Main
begin

section \<open>Data model\<close>

text \<open>
  The backend \<^verbatim>\<open>src/app/backends/github_api.js\<close> is meant to build one commit from a
  list of changed files through the Git Data interface of the hosting service. The
  theory follows the file as it is written, line by line; where a name is not bound
  or a callback has no receiver, the model throws what the language throws.

  Object ids are opaque to the code; here they are natural numbers. A JavaScript
  value read where an id is expected is one of three things: a falsy value
  (\<^verbatim>\<open>null\<close>, \<^verbatim>\<open>undefined\<close>), an id, or some other truthy value.
\<close>

type_synonym sha = nat

datatype shaval = NoSha | Sha sha | NotSha

text \<open>
  The failures of a run: the two exceptions of the language that the file can raise,
  and the refusals of the service. \<open>NotFastForward\<close> is the specification's name for
  the refusal of a reference update that is no fast-forward.
\<close>

datatype error = ReferenceError string | TypeError | TransportError | HttpError nat | NotFastForward

text \<open>One child of a tree object, as read from the service and as line 153 or 164 builds it.\<close>

record entry =
  path :: string
  mode :: string
  type :: string
  sha :: shaval

text \<open>The object of line 175: an entry with the extra field \<^verbatim>\<open>parentSha\<close>.\<close>

record change = entry +
  parentSha :: shaval

record commit =
  message :: string
  tree :: shaval
  parents :: "shaval list"

text \<open>A pending file as the caller hands it over.\<close>

record pfile =
  path :: string
  content :: string
  sha :: shaval
  uploaded :: bool
  upload :: bool

text \<open>
  The nested object \<^verbatim>\<open>fileTree\<close> that \<^verbatim>\<open>updateTree\<close> receives. \<open>Dir\<close> is a plain
  object with its own enumerable properties in the order in which \<^verbatim>\<open>for ... in\<close> visits
  them (keys that are array indices first, in ascending order, then the other keys
  in the order of their creation). \<open>File\<close> is a file object whose property
  \<^verbatim>\<open>file\<close> is \<^verbatim>\<open>true\<close>, the mark by which lines 152 and 163 tell a file from a
  directory.
\<close>

datatype node = File pfile | Dir "(string \<times> node) list"

record options =
  message :: string

section \<open>Promises, exceptions and receivers\<close>

text \<open>
  What a promise comes to. \<open>Undetermined\<close> stands for a promise that is not fulfilled
  and of which the source alone does not say more: several rejections race and the
  order of the answers decides which one is reported, or the promise belongs to a
  merge that was started on an object of the runtime.
\<close>

datatype 'a promise = Fulfilled 'a | Rejected error | Undetermined

text \<open>What a call comes to: it returns a value, or it throws.\<close>

datatype 'a completion = Returned 'a | Thrown error

text \<open>
  The value of \<^verbatim>\<open>this\<close>. A method called on the backend object and an arrow
  function inside it see the object. The file is a module, so its code is strict: a
  plain \<^verbatim>\<open>function\<close> that the promise library calls as a callback sees
  \<^verbatim>\<open>undefined\<close>.
\<close>

datatype receiver = Instance | Undefined

text \<open>
  \<^verbatim>\<open>Promise.all\<close>: fulfilled with all the values when every element is fulfilled,
  and rejected with the reason of the element that is rejected first otherwise. When
  all the rejected elements have one reason and no element is undetermined, that
  reason is the result whatever the order.
\<close>

fun value_of :: "'a promise \<Rightarrow> 'a option" where
  "value_of (Fulfilled x) = Some x"
| "value_of (Rejected e) = None"
| "value_of Undetermined = None"

fun reason_of :: "'a promise \<Rightarrow> error option" where
  "reason_of (Fulfilled x) = None"
| "reason_of (Rejected e) = Some e"
| "reason_of Undetermined = None"

fun undetermined :: "'a promise \<Rightarrow> bool" where
  "undetermined (Fulfilled x) = False"
| "undetermined (Rejected e) = False"
| "undetermined Undetermined = True"

definition Promise_all :: "'a promise list \<Rightarrow> 'a list promise" where
  "Promise_all ps =
     (case those (map value_of ps) of
        Some xs \<Rightarrow> Fulfilled xs
      | None \<Rightarrow>
          (case remdups (List.map_filter reason_of ps) of
             [e] \<Rightarrow> (if list_ex undetermined ps then Undetermined else Rejected e)
           | _ \<Rightarrow> Undetermined))"

section \<open>The remote repository\<close>

text \<open>
  The service behind \<^verbatim>\<open>request\<close> is not part of the repository. It is modelled as
  an append-only object table (an id is an index) with one branch head. Whether a
  request gets through is a matter of the request alone (\<open>lost\<close>), so that the order
  in which concurrent requests are answered plays no part.
  Two documented behaviours of the service matter to the code:
  a tree is addressed by its own id or by the id of a commit that holds it;
  a tree created with \<^verbatim>\<open>base_tree\<close> consists of the base's entries overridden
  by the submitted ones, and of the submitted ones alone without it.
  The service stores submitted entries as they are.
\<close>

datatype obj = Blob string | Tree "entry list" | Commit commit

text \<open>
  An element of the array that \<^verbatim>\<open>Promise.all\<close> hands to line 169: an entry built by
  a loop, or the object a nested merge is fulfilled with.
\<close>

datatype update = Plain entry | Merged change

datatype request = GetTree shaval | PostTree shaval "update list"

record remote =
  objects :: "obj list"
  head :: sha
  lost :: "request \<Rightarrow> bool"

definition tree_at :: "obj list \<Rightarrow> sha \<Rightarrow> entry list option" where
  "tree_at os n =
     (if n < length os then
        (case os ! n of
           Tree es \<Rightarrow> Some es
         | Commit c \<Rightarrow>
             (case commit.tree c of
                Sha t \<Rightarrow> (if t < length os then (case os ! t of Tree es \<Rightarrow> Some es | _ \<Rightarrow> None) else None)
              | _ \<Rightarrow> None)
         | Blob _ \<Rightarrow> None)
      else None)"

definition overlay :: "entry list \<Rightarrow> entry list \<Rightarrow> entry list" where
  "overlay base es = filter (\<lambda>b. entry.path b \<notin> set (map entry.path es)) base @ es"

fun as_entry :: "update \<Rightarrow> entry" where
  "as_entry (Plain e) = e"
| "as_entry (Merged c) = entry.truncate c"

text \<open>\<^verbatim>\<open>GET /git/trees/:sha\<close>. Nothing changes in the repository.\<close>

definition get_tree :: "shaval \<Rightarrow> remote \<Rightarrow> entry list promise \<times> remote" where
  "get_tree s st =
     (if lost st (GetTree s) then (Rejected TransportError, st)
      else
        (case s of
           Sha n \<Rightarrow>
             (case tree_at (objects st) n of
                Some es \<Rightarrow> (Fulfilled es, st)
              | None \<Rightarrow> (Rejected (HttpError 404), st))
         | _ \<Rightarrow> (Rejected (HttpError 404), st)))"

text \<open>\<^verbatim>\<open>POST /git/trees\<close> with the body of line 172. The new tree gets the next id.\<close>

definition post_tree :: "shaval \<Rightarrow> update list \<Rightarrow> remote \<Rightarrow> sha promise \<times> remote" where
  "post_tree b ups st =
     (if lost st (PostTree b ups) then (Rejected TransportError, st)
      else
        (case (case b of NoSha \<Rightarrow> Some [] | Sha n \<Rightarrow> tree_at (objects st) n | NotSha \<Rightarrow> None) of
           Some base \<Rightarrow>
             (Fulfilled (length (objects st)),
              st\<lparr>objects := objects st @ [Tree (overlay base (map as_entry ups))]\<rparr>)
         | None \<Rightarrow> (Rejected (HttpError 422), st)))"

section \<open>The methods of the backend\<close>

text \<open>
  Lines 112 to 117. \<^verbatim>\<open>this.request(...)\<close> reads the property \<^verbatim>\<open>request\<close> of
  \<^verbatim>\<open>this\<close> first: where \<^verbatim>\<open>this\<close> is \<^verbatim>\<open>undefined\<close> that throws, and nothing is
  sent. On the backend object the request goes to the service; what \<^verbatim>\<open>Ember.$.ajax\<close>
  returns is taken to settle as a promise of the library does.
\<close>

definition request :: "receiver \<Rightarrow> (remote \<Rightarrow> 'a promise \<times> remote) \<Rightarrow> remote
                       \<Rightarrow> 'a promise completion \<times> remote" where
  "request this q st =
     (case this of
        Undefined \<Rightarrow> (Thrown TypeError, st)
      | Instance \<Rightarrow> (case q st of (p, st1) \<Rightarrow> (Returned p, st1)))"

text \<open>
  Line 124, called on the backend object, as line 142 calls it: a falsy id is
  fulfilled with the empty tree and no request is made; any other id is asked of the
  service.
\<close>

definition getTree :: "shaval \<Rightarrow> remote \<Rightarrow> entry list promise \<times> remote" where
  "getTree s st = (if s = NoSha then (Fulfilled [], st) else get_tree s st)"

section \<open>The merge: \<^verbatim>\<open>updateTree\<close>\<close>

text \<open>
  \<^verbatim>\<open>fileTree\<close> and \<^verbatim>\<open>added\<close> are plain objects used as dictionaries. Reading
  \<^verbatim>\<open>o[k]\<close> finds the own property \<^verbatim>\<open>k\<close> and, when there is none, the member
  \<^verbatim>\<open>k\<close> of \<^verbatim>\<open>Object.prototype\<close>; these members are functions, or the prototype itself for
  \<^verbatim>\<open>__proto__\<close>, so all of them are truthy.
\<close>

definition object_prototype :: "string list" where
  "object_prototype =
     [''constructor'', ''__defineGetter__'', ''__defineSetter__'', ''hasOwnProperty'',
      ''__lookupGetter__'', ''__lookupSetter__'', ''isPrototypeOf'', ''propertyIsEnumerable'',
      ''toString'', ''valueOf'', ''__proto__'', ''toLocaleString'']"

datatype found = Own node | Inherited

definition get_prop :: "(string \<times> node) list \<Rightarrow> string \<Rightarrow> found option" where
  "get_prop ps k =
     (case map_of ps k of
        Some n \<Rightarrow> Some (Own n)
      | None \<Rightarrow> (if k \<in> set object_prototype then Some Inherited else None))"

text \<open>
  \<^verbatim>\<open>fileOrDir.file\<close> and \<^verbatim>\<open>fileOrDir.sha\<close>: on a plain object they read its child of
  that name, which is an object.
\<close>

fun file_flag :: "node \<Rightarrow> bool" where
  "file_flag (File f) = True"
| "file_flag (Dir ps) = (map_of ps ''file'' \<noteq> None)"

fun sha_prop :: "node \<Rightarrow> shaval" where
  "sha_prop (File f) = pfile.sha f"
| "sha_prop (Dir ps) = (case map_of ps ''sha'' of None \<Rightarrow> NoSha | Some _ \<Rightarrow> NotSha)"

fun props :: "node \<Rightarrow> (string \<times> node) list" where
  "props (File f) = []"
| "props (Dir ps) = ps"

text \<open>
  An element of the array \<^verbatim>\<open>updates\<close> while the loops fill it: an entry, the
  promise of a nested \<^verbatim>\<open>this.updateTree(sha, path, fileOrDir)\<close> on a directory of
  \<^verbatim>\<open>fileTree\<close>, or the promise of such a call on a member of \<^verbatim>\<open>Object.prototype\<close>
  that line 150 found under the name of an entry.
\<close>

datatype item =
    Entry entry
  | Merge shaval string "(string \<times> node) list"
  | Astray shaval string

fun item_path :: "item \<Rightarrow> string" where
  "item_path (Entry e) = entry.path e"
| "item_path (Merge s p ps) = p"
| "item_path (Astray s p) = p"

text \<open>
  Lines 148 to 158, the loop over the entries of the fetched tree: what it pushes on
  \<^verbatim>\<open>updates\<close>, and the names it sets in \<^verbatim>\<open>added\<close>.
\<close>

fun existing :: "entry list \<Rightarrow> (string \<times> node) list \<Rightarrow> item list \<times> string list" where
  "existing [] fileTree = ([], [])"
| "existing (ob # rest) fileTree =
     (case existing rest fileTree of
        (updates, added) \<Rightarrow>
          (case get_prop fileTree (entry.path ob) of
             None \<Rightarrow> (updates, added)
           | Some Inherited \<Rightarrow>
               (Astray (entry.sha ob) (entry.path ob) # updates, entry.path ob # added)
           | Some (Own fileOrDir) \<Rightarrow>
               ((if file_flag fileOrDir then
                   Entry \<lparr>entry.path = entry.path ob, mode = mode ob, type = type ob,
                          sha = sha_prop fileOrDir\<rparr>
                 else Merge (entry.sha ob) (entry.path ob) (props fileOrDir)) # updates,
                entry.path ob # added)))"

text \<open>
  Lines 159 to 167, the loop over the keys of \<^verbatim>\<open>fileTree\<close>. \<^verbatim>\<open>added[filename]\<close> is
  truthy for a name set by the first loop and for a member of \<^verbatim>\<open>Object.prototype\<close>.
\<close>

fun pending :: "(string \<times> node) list \<Rightarrow> string list \<Rightarrow> item list" where
  "pending [] added = []"
| "pending ((filename, fileOrDir) # rest) added =
     (if filename \<in> set added \<or> filename \<in> set object_prototype then pending rest added
      else
        (if file_flag fileOrDir then
           Entry \<lparr>entry.path = filename, mode = ''100644'', type = ''blob'', sha = sha_prop fileOrDir\<rparr>
         else Merge NoSha filename (props fileOrDir)) # pending rest added)"

text \<open>The array \<^verbatim>\<open>updates\<close> when line 168 is reached.\<close>

definition loops :: "entry list \<Rightarrow> (string \<times> node) list \<Rightarrow> item list" where
  "loops tree_tree fileTree =
     (case existing tree_tree fileTree of (updates, added) \<Rightarrow> updates @ pending fileTree added)"

fun weight :: "node \<Rightarrow> nat" where
  "weight (File f) = 1"
| "weight (Dir ps) = Suc (sum_list (map (\<lambda>p. weight (snd p)) ps))"

definition weights :: "(string \<times> node) list \<Rightarrow> nat" where
  "weights ps = sum_list (map (\<lambda>p. weight (snd p)) ps)"

fun need :: "item list \<Rightarrow> nat" where
  "need [] = 0"
| "need (Entry e # items) = need items"
| "need (Merge s p ps # items) = max (Suc (weights ps)) (need items)"
| "need (Astray s p # items) = need items"

text \<open>
  Lines 141 to 178, called on the backend object. \<open>settle_all\<close> gives what each
  element of \<^verbatim>\<open>updates\<close> comes to. The callback of lines 169 to 173 is a plain
  \<^verbatim>\<open>function\<close>, so its \<^verbatim>\<open>this\<close> is \<^verbatim>\<open>undefined\<close>; an exception inside a callback
  rejects the promise that \<^verbatim>\<open>then\<close> returned.

  The source starts the nested merges while the loops run and lets them proceed
  side by side; the model visits them in the order of \<^verbatim>\<open>updates\<close>. That order does
  not show: no merge changes the repository (\<open>updateTree_reads_only\<close> below), and
  what a read is answered does not depend on the reads before it. A merge started
  on a member of \<^verbatim>\<open>Object.prototype\<close> is not followed; like every merge it ends at
  line 170 at the latest, so its promise is not fulfilled.
\<close>

function (sequential)
  updateTree :: "shaval \<Rightarrow> string \<Rightarrow> (string \<times> node) list \<Rightarrow> remote \<Rightarrow> change promise \<times> remote"
  and settle_all :: "item list \<Rightarrow> remote \<Rightarrow> update promise list \<times> remote"
where
  "updateTree s p fileTree st =
     (case getTree s st of
        (Fulfilled tree_tree, st1) \<Rightarrow>
          (case settle_all (loops tree_tree fileTree) st1 of
             (promises, st2) \<Rightarrow>
               (case Promise_all promises of
                  Fulfilled updates \<Rightarrow>
                    (case request Undefined (post_tree s updates) st2 of
                       (Thrown e, st3) \<Rightarrow> (Rejected e, st3)
                     | (Returned (Fulfilled response_sha), st3) \<Rightarrow>
                         (Fulfilled \<lparr>entry.path = p, mode = ''040000'', type = ''tree'',
                                     sha = Sha response_sha, parentSha = s\<rparr>, st3)
                     | (Returned (Rejected e), st3) \<Rightarrow> (Rejected e, st3)
                     | (Returned Undetermined, st3) \<Rightarrow> (Undetermined, st3))
                | Rejected e \<Rightarrow> (Rejected e, st2)
                | Undetermined \<Rightarrow> (Undetermined, st2)))
      | (Rejected e, st1) \<Rightarrow> (Rejected e, st1)
      | (Undetermined, st1) \<Rightarrow> (Undetermined, st1))"
| "settle_all [] st = ([], st)"
| "settle_all (Entry e # items) st =
     (case settle_all items st of (ps, st') \<Rightarrow> (Fulfilled (Plain e) # ps, st'))"
| "settle_all (Merge s p fileOrDir # items) st =
     (case updateTree s p fileOrDir st of
        (r, st1) \<Rightarrow>
          (case settle_all items st1 of
             (ps, st') \<Rightarrow>
               ((case r of
                   Fulfilled c \<Rightarrow> Fulfilled (Merged c)
                 | Rejected e \<Rightarrow> Rejected e
                 | Undetermined \<Rightarrow> Undetermined) # ps, st')))"
| "settle_all (Astray s p # items) st =
     (case settle_all items st of (ps, st') \<Rightarrow> (Undetermined # ps, st'))"
  by pat_completeness auto
termination
proof (relation "measures
    [\<lambda>x. case x of Inl (s, p, ft, st) \<Rightarrow> weights ft | Inr (items, st) \<Rightarrow> need items,
     \<lambda>x. case x of Inl _ \<Rightarrow> 1 | Inr _ \<Rightarrow> 0,
     \<lambda>x. case x of Inl _ \<Rightarrow> 0 | Inr (items, st) \<Rightarrow> length items]", goal_cases)
  have wc: "weights ((k, n) # ps) = weight n + weights ps" for k n ps
    by (simp add: weights_def)
  have wp: "weight n = Suc (weights (props n))" if "\<not> file_flag n" for n
    using that by (cases n) (simp_all add: weights_def)
  have wm: "weight n \<le> weights ps" if "map_of ps k = Some n" for ps k n
    using that
  proof (induction ps)
    case Nil
    then show ?case by simp
  next
    case (Cons a ps)
    obtain k' n' where a: "a = (k', n')" by (cases a)
    show ?case using Cons by (auto simp: a wc split: if_splits)
  qed
  have na: "need (xs @ ys) = max (need xs) (need ys)" for xs ys
    by (induction xs rule: need.induct) simp_all
  have ne: "need (fst (existing t ft)) \<le> weights ft" for t ft
  proof (induction t)
    case Nil
    then show ?case by simp
  next
    case (Cons ob rest)
    obtain us ad where r: "existing rest ft = (us, ad)" by (cases "existing rest ft")
    have u: "need us \<le> weights ft" using Cons r by simp
    show ?case
    proof (cases "get_prop ft (entry.path ob)")
      case None
      then show ?thesis using r u by simp
    next
      case (Some v)
      show ?thesis
      proof (cases v)
        case Inherited
        then show ?thesis using Some r u by simp
      next
        case (Own n)
        then have m: "map_of ft (entry.path ob) = Some n"
          using Some by (auto simp: get_prop_def split: option.splits if_splits)
        show ?thesis
        proof (cases "file_flag n")
          case True
          then show ?thesis using Some Own r u by simp
        next
          case False
          then show ?thesis using Some Own r u wm[OF m] wp[OF False] by simp
        qed
      qed
    qed
  qed
  have np: "need (pending ft ad) \<le> weights ft" for ft ad
  proof (induction ft)
    case Nil
    then show ?case by simp
  next
    case (Cons a ft)
    obtain k n where a: "a = (k, n)" by (cases a)
    show ?case
    proof (cases "file_flag n")
      case True
      then show ?thesis using Cons by (simp add: a wc)
    next
      case False
      then show ?thesis using Cons wp[OF False] by (simp add: a wc)
    qed
  qed
  have nl: "need (loops t ft) \<le> weights ft" for t ft
    using ne[of t ft] np[of ft "snd (existing t ft)"]
    by (cases "existing t ft") (simp add: loops_def na)
  {
    case 1
    show ?case by simp
  next
    case (2 s p fileTree st x1 st1 tree_tree)
    show ?case using nl[of tree_tree fileTree] by auto
  next
    case (3 e items st)
    show ?case by auto
  next
    case (4 s p fileOrDir items st)
    show ?case by auto
  next
    case (5 s p fileOrDir items st x st1)
    show ?case by auto
  next
    case (6 s p items st)
    show ?case by auto
  }
qed

declare updateTree.simps [simp del]

section \<open>The commit: \<^verbatim>\<open>updateFiles\<close>\<close>

text \<open>
  Lines 77 to 110. Line 80 declares \<^verbatim>\<open>files\<close> again and sets it to the empty array,
  so the list the caller passed is gone. The loop of line 82 starts by reading
  \<^verbatim>\<open>uploads.length\<close>. No declaration binds \<^verbatim>\<open>uploads\<close>: the names of the function are
  \<^verbatim>\<open>files\<close>, \<^verbatim>\<open>options\<close>, \<^verbatim>\<open>file\<close>, \<^verbatim>\<open>filename\<close>, \<^verbatim>\<open>part\<close>, \<^verbatim>\<open>parts\<close>, \<^verbatim>\<open>subtree\<close>,
  \<^verbatim>\<open>fileTree\<close>, \<^verbatim>\<open>i\<close> and \<^verbatim>\<open>len\<close>, those of the module are \<^verbatim>\<open>Ember\<close>, \<^verbatim>\<open>Promise\<close>,
  \<^verbatim>\<open>ENDPOINT\<close> and \<^verbatim>\<open>GithubAPI\<close>, and the one global the file announces is
  \<^verbatim>\<open>Base64\<close>. Reading an unbound name throws \<^verbatim>\<open>ReferenceError\<close>, so the call ends
  there, before the body of the loop and before any request, and it returns no
  promise. Lines 83 to 109 never run and have no counterpart here.
\<close>

definition updateFiles :: "pfile list \<Rightarrow> options \<Rightarrow> remote \<Rightarrow> unit promise completion \<times> remote" where
  "updateFiles files opts st = (Thrown (ReferenceError ''uploads''), st)"

section \<open>A small repository\<close>

text \<open>
  The examples run on a repository of four objects: a blob, the tree that holds it
  as the executable \<^verbatim>\<open>a.txt\<close>, the commit of that tree, which the branch points to,
  and a second blob that no tree refers to yet. Every request gets through.
\<close>

definition blob_a :: entry where
  "blob_a = \<lparr>entry.path = ''a.txt'', mode = ''100755'', type = ''blob'', sha = Sha 0\<rparr>"

definition repo :: remote where
  "repo = \<lparr>objects = [Blob ''old'', Tree [blob_a],
                       Commit \<lparr>commit.message = ''init'', tree = Sha 1, parents = []\<rparr>,
                       Blob ''new''],
            head = 2, lost = (\<lambda>q. False)\<rparr>"

text \<open>A file object whose content is the blob 3 of the repository, and one not uploaded yet.\<close>

definition ready :: "string \<Rightarrow> pfile" where
  "ready p = \<lparr>pfile.path = p, content = ''new'', sha = Sha 3, uploaded = True, upload = False\<rparr>"

definition newfile :: "string \<Rightarrow> pfile" where
  "newfile p = \<lparr>pfile.path = p, content = ''new'', sha = NoSha, uploaded = False, upload = False\<rparr>"

lemmas run_defs =
  getTree_def get_tree_def post_tree_def tree_at_def request_def loops_def Promise_all_def
  object_prototype_def get_prop_def List.map_filter_def overlay_def
  repo_def blob_a_def ready_def newfile_def updateTree.simps

section \<open>Auxiliary facts\<close>

subsection \<open>\<^verbatim>\<open>Promise.all\<close>\<close>

lemma those_map_Some: "those (map (\<lambda>x. Some (f x)) xs) = Some (map f xs)"
  by (induction xs) simp_all

lemma Promise_all_Fulfilled: "Promise_all (map (\<lambda>x. Fulfilled (f x)) xs) = Fulfilled (map f xs)"
  by (simp add: Promise_all_def comp_def those_map_Some)

lemma those_SomeD:
  "those os = Some xs \<Longrightarrow> os = map Some xs"
proof (induction os arbitrary: xs)
  case Nil
  then show ?case by simp
next
  case (Cons a os)
  then show ?case by (cases a) (auto split: option.splits)
qed

lemma value_of_SomeD: "value_of p = Some x \<Longrightarrow> p = Fulfilled x"
  by (cases p) simp_all

lemma Promise_all_FulfilledD:
  assumes "Promise_all ps = Fulfilled xs"
  shows "ps = map Fulfilled xs"
proof -
  have "those (map value_of ps) = Some xs"
    using assms by (auto simp: Promise_all_def split: option.splits list.splits if_splits)
  then have m: "map value_of ps = map Some xs" by (rule those_SomeD)
  then have l: "length ps = length xs" by (metis length_map)
  show ?thesis
  proof (rule nth_equalityI)
    show "length ps = length (map Fulfilled xs)" using l by simp
  next
    fix i assume i: "i < length ps"
    have "value_of (ps ! i) = Some (xs ! i)"
      using m i l by (metis nth_map)
    then show "ps ! i = map Fulfilled xs ! i"
      using i l by (simp add: value_of_SomeD)
  qed
qed

subsection \<open>The merge never gets to the service with a tree\<close>

lemma request_Undefined: "request Undefined q st = (Thrown TypeError, st)"
  by (simp add: request_def)

lemma getTree_state: "snd (getTree s st) = st"
  by (simp add: getTree_def get_tree_def split: shaval.splits option.splits)

lemma updateTree_cases:
  obtains
    (fetch_failed) e where "getTree s st = (Rejected e, st)" "fst (updateTree s p fileTree st) = Rejected e"
  | (fetch_open) "getTree s st = (Undetermined, st)" "fst (updateTree s p fileTree st) = Undetermined"
  | (nested) tree_tree r where "getTree s st = (Fulfilled tree_tree, st)"
      "Promise_all (fst (settle_all (loops tree_tree fileTree) st)) = r"
      "\<forall>us. r \<noteq> Fulfilled us"
      "fst (updateTree s p fileTree st) = (case r of Rejected e \<Rightarrow> Rejected e | _ \<Rightarrow> Undetermined)"
  | (plain) tree_tree updates where "getTree s st = (Fulfilled tree_tree, st)"
      "Promise_all (fst (settle_all (loops tree_tree fileTree) st)) = Fulfilled updates"
      "fst (updateTree s p fileTree st) = Rejected TypeError"
proof -
  obtain g st1 where g: "getTree s st = (g, st1)" by (cases "getTree s st")
  have st1: "st1 = st" using getTree_state[of s st] g by simp
  show ?thesis
  proof (cases g)
    case (Rejected e)
    then show ?thesis using g st1 fetch_failed by (simp add: updateTree.simps)
  next
    case Undetermined
    then show ?thesis using g st1 fetch_open by (simp add: updateTree.simps)
  next
    case (Fulfilled tree_tree)
    obtain ps st2 where s: "settle_all (loops tree_tree fileTree) st = (ps, st2)"
      by (cases "settle_all (loops tree_tree fileTree) st")
    show ?thesis
    proof (cases "Promise_all ps")
      case (Fulfilled updates)
      then show ?thesis
        using g st1 s \<open>g = Fulfilled tree_tree\<close> plain[of tree_tree updates]
        by (simp add: updateTree.simps request_Undefined)
    next
      case (Rejected e)
      then show ?thesis
        using g st1 s \<open>g = Fulfilled tree_tree\<close> nested[of tree_tree "Rejected e"]
        by (simp add: updateTree.simps)
    next
      case Undetermined
      then show ?thesis
        using g st1 s \<open>g = Fulfilled tree_tree\<close> nested[of tree_tree Undetermined]
        by (simp add: updateTree.simps)
    qed
  qed
qed

lemma updateTree_not_fulfilled: "fst (updateTree s p fileTree st) \<noteq> Fulfilled c"
  by (cases rule: updateTree_cases[of s st p fileTree]) (auto split: promise.splits)

lemma updateTree_reads_only:
  "snd (updateTree s p fileTree st) = st"
  "snd (settle_all items st) = st"
proof (induction s p fileTree st and items st rule: updateTree_settle_all.induct)
  case (1 s p fileTree st)
  obtain g st1 where g: "getTree s st = (g, st1)" by (cases "getTree s st")
  have st1: "st1 = st" using getTree_state[of s st] g by simp
  show ?case
  proof (cases g)
    case (Fulfilled tree_tree)
    obtain ps st2 where s: "settle_all (loops tree_tree fileTree) st = (ps, st2)"
      by (cases "settle_all (loops tree_tree fileTree) st")
    have "st2 = st" using 1 g st1 Fulfilled s by simp
    then show ?thesis
      using g st1 Fulfilled s
      by (simp add: updateTree.simps request_Undefined split: promise.splits)
  qed (use g st1 in \<open>simp_all add: updateTree.simps\<close>)
next
  case (2 st)
  show ?case by simp
next
  case (3 e items st)
  then show ?case by (cases "settle_all items st") simp
next
  case (4 s p fileOrDir items st)
  obtain r st1 where u: "updateTree s p fileOrDir st = (r, st1)" by (cases "updateTree s p fileOrDir st")
  have st1: "st1 = st" using 4(1) u by simp
  obtain ps st2 where s: "settle_all items st1 = (ps, st2)" by (cases "settle_all items st1")
  have "st2 = st1" using 4(2) u s by simp
  then show ?case using u s st1 by simp
next
  case (5 s p items st)
  then show ?case by (cases "settle_all items st") simp
qed

lemma settle_all_Entry: "settle_all (map Entry es) st = (map (\<lambda>e. Fulfilled (Plain e)) es, st)"
  by (induction es) simp_all

lemma updateTree_plain:
  assumes "getTree s st = (Fulfilled tree_tree, st)" and "loops tree_tree fileTree = map Entry es"
  shows "updateTree s p fileTree st = (Rejected TypeError, st)"
  using assms
  by (simp add: updateTree.simps settle_all_Entry Promise_all_Fulfilled request_Undefined)

text \<open>The array reaches line 169 only when the loops pushed entries and no promise.\<close>

lemma settle_all_FulfilledD:
  "fst (settle_all items st) = map Fulfilled ups \<Longrightarrow> items = map Entry (map as_entry ups) \<and> ups = map Plain (map as_entry ups)"
proof (induction items arbitrary: ups st)
  case Nil
  then show ?case by simp
next
  case (Cons it items)
  show ?case
  proof (cases it)
    case (Entry e)
    obtain ps st' where s: "settle_all items st = (ps, st')" by (cases "settle_all items st")
    from Cons.prems Entry s obtain u us where u: "ups = u # us" "u = Plain e" "ps = map Fulfilled us"
      by (cases ups) auto
    have "items = map Entry (map as_entry us) \<and> us = map Plain (map as_entry us)"
      using Cons.IH[of st us] s u by simp
    then show ?thesis using Entry u by simp
  next
    case (Merge s p ks)
    obtain r st1 where r: "updateTree s p ks st = (r, st1)" by (cases "updateTree s p ks st")
    obtain ps st' where s: "settle_all items st1 = (ps, st')" by (cases "settle_all items st1")
    have "\<forall>c. r \<noteq> Fulfilled c" using updateTree_not_fulfilled[of s p ks st] r by simp
    then show ?thesis using Cons.prems Merge r s by (cases ups; cases r) auto
  next
    case (Astray s p)
    then show ?thesis using Cons.prems by (cases ups) (auto split: prod.splits)
  qed
qed

subsection \<open>What the loops push\<close>

lemma existing_paths:
  "map item_path (fst (existing t ft)) = filter (\<lambda>k. get_prop ft k \<noteq> None) (map entry.path t)"
  "snd (existing t ft) = filter (\<lambda>k. get_prop ft k \<noteq> None) (map entry.path t)"
  by (induction t) (auto split: prod.splits option.splits found.splits)

lemma pending_paths:
  "map item_path (pending ft ad) =
     filter (\<lambda>k. k \<notin> set ad \<and> k \<notin> set object_prototype) (map fst ft)"
  by (induction ft ad rule: pending.induct) auto

lemma loops_paths:
  "map item_path (loops t ft) =
     filter (\<lambda>k. get_prop ft k \<noteq> None) (map entry.path t) @
     filter (\<lambda>k. k \<notin> set (filter (\<lambda>k. get_prop ft k \<noteq> None) (map entry.path t)) \<and>
                  k \<notin> set object_prototype) (map fst ft)"
  using existing_paths[of t ft]
  by (cases "existing t ft") (simp add: loops_def pending_paths)


lemma loops_distinct:
  assumes "distinct (map entry.path t)" and "distinct (map fst ft)"
  shows "distinct (map item_path (loops t ft))"
  using assms by (auto simp: loops_paths distinct_map_filter)



lemma existing_pushes:
  assumes "ob \<in> set t" and "map_of ft (entry.path ob) = Some n"
  shows "(if file_flag n then
            Entry \<lparr>entry.path = entry.path ob, mode = mode ob, type = type ob, sha = sha_prop n\<rparr>
          else Merge (entry.sha ob) (entry.path ob) (props n)) \<in> set (fst (existing t ft))"
  using assms
  by (induction t) (auto simp: get_prop_def split: prod.splits option.splits)



section \<open>The properties\<close>

subsection \<open>C1: the merge returns no tree\<close>

text \<open>
  C1. The claim wants the tree returned by the merge to hold the entries of the base
  tree and one new entry for each pending path. The merge returns no tree at all: for
  every base id, path, pending object and repository, the promise of
  \<^verbatim>\<open>updateTree\<close> is not fulfilled and the repository is as it was. Once every element
  of \<^verbatim>\<open>updates\<close> is settled, the callback of line 169 reads \<^verbatim>\<open>this.request\<close> where
  \<^verbatim>\<open>this\<close> is \<^verbatim>\<open>undefined\<close>. When the base tree is fetched and the loops push
  entries only, the promise is rejected with \<^verbatim>\<open>TypeError\<close>; so it is for the base tree
  with \<^verbatim>\<open>a.txt\<close> and the pending file \<^verbatim>\<open>b.txt\<close>, whose paths are disjoint.
\<close>

theorem updateTree_returns_no_tree:
  "fst (updateTree s p fileTree st) \<noteq> Fulfilled c \<and>
   snd (updateTree s p fileTree st) = st \<and>
   (getTree s st = (Fulfilled T, st) \<and> loops T fileTree = map Entry es \<longrightarrow>
      updateTree s p fileTree st = (Rejected TypeError, st))"
  using updateTree_not_fulfilled[of s p fileTree st c] updateTree_reads_only(1)[of s p fileTree st]
    updateTree_plain[of s st T fileTree es p]
  by blast

theorem updateTree_returns_no_tree_witness:
  "getTree (Sha 1) repo = (Fulfilled [blob_a], repo) \<and>
   loops [blob_a] [(''b.txt'', File (ready ''b.txt''))] =
     map Entry [\<lparr>entry.path = ''b.txt'', mode = ''100644'', type = ''blob'', sha = Sha 3\<rparr>] \<and>
   updateTree (Sha 1) ''/'' [(''b.txt'', File (ready ''b.txt''))] repo = (Rejected TypeError, repo) \<and>
   objects (snd (updateTree (Sha 1) ''/'' [(''b.txt'', File (ready ''b.txt''))] repo)) =
     [Blob ''old'', Tree [blob_a],
      Commit \<lparr>commit.message = ''init'', tree = Sha 1, parents = []\<rparr>, Blob ''new''] \<and>
   updateTree (Sha 2) ''/'' [(''d'', Dir [(''x.txt'', File (ready ''d/x.txt''))])] repo
     = (Rejected TypeError, repo)"
proof -
  let ?P = "[(''b.txt'', File (ready ''b.txt''))]"
  let ?es = "[\<lparr>entry.path = ''b.txt'', mode = ''100644'', type = ''blob'', sha = Sha 3\<rparr>]"
  have h1: "getTree (Sha 1) repo = (Fulfilled [blob_a], repo)" by (simp add: run_defs)
  have h2: "loops [blob_a] ?P = map Entry ?es" by (simp add: run_defs)
  have n: "updateTree (Sha 2) ''/'' [(''d'', Dir [(''x.txt'', File (ready ''d/x.txt''))])] repo
     = (Rejected TypeError, repo)"
    by (simp add: run_defs)
  have o: "objects repo = [Blob ''old'', Tree [blob_a],
      Commit \<lparr>commit.message = ''init'', tree = Sha 1, parents = []\<rparr>, Blob ''new'']"
    by (simp add: repo_def)
  have "updateTree (Sha 1) ''/'' ?P repo = (Rejected TypeError, repo)"
    using updateTree_returns_no_tree[of "Sha 1" "''/''" ?P repo _ "[blob_a]" ?es] h1 h2 by blast
  then show ?thesis using h1 h2 n o by simp
qed

subsection \<open>C4: the overriding entry is prepared and not returned\<close>

text \<open>
  C4. Let the fetched base tree hold the entry \<open>ob\<close>, and let the pending object hold
  a file under the path of \<open>ob\<close>. The first loop then pushes the entry the claim
  describes: the path, mode and type of \<open>ob\<close> with the id of the file. No merged
  tree comes of it: the promise of the merge is not fulfilled, and the repository is
  as it was.
\<close>

theorem override_prepared_not_returned:
  assumes "getTree s st = (Fulfilled T, st)"
    and "ob \<in> set T"
    and "map_of P (entry.path ob) = Some (File f)"
  shows "Entry \<lparr>entry.path = entry.path ob, mode = mode ob, type = type ob, sha = pfile.sha f\<rparr>
           \<in> set (loops T P) \<and>
         fst (updateTree s p P st) \<noteq> Fulfilled c \<and>
         snd (updateTree s p P st) = st"
proof -
  have "Entry \<lparr>entry.path = entry.path ob, mode = mode ob, type = type ob, sha = pfile.sha f\<rparr>
          \<in> set (fst (existing T P))"
    using existing_pushes[OF assms(2,3)] by simp
  then have "Entry \<lparr>entry.path = entry.path ob, mode = mode ob, type = type ob, sha = pfile.sha f\<rparr>
          \<in> set (loops T P)"
    by (cases "existing T P") (simp add: loops_def)
  then show ?thesis
    using updateTree_not_fulfilled[of s p P st c] updateTree_reads_only(1)[of s p P st]
    by simp
qed

theorem override_prepared_not_returned_witness:
  "getTree (Sha 1) repo = (Fulfilled [blob_a], repo) \<and>
   blob_a \<in> set [blob_a] \<and>
   map_of [(''a.txt'', File (ready ''a.txt''))] (entry.path blob_a) = Some (File (ready ''a.txt'')) \<and>
   Entry \<lparr>entry.path = ''a.txt'', mode = ''100755'', type = ''blob'', sha = Sha 3\<rparr>
     \<in> set (loops [blob_a] [(''a.txt'', File (ready ''a.txt''))]) \<and>
   updateTree (Sha 1) ''/'' [(''a.txt'', File (ready ''a.txt''))] repo = (Rejected TypeError, repo)"
proof -
  have h1: "getTree (Sha 1) repo = (Fulfilled [blob_a], repo)" by (simp add: run_defs)
  have h2: "blob_a \<in> set [blob_a]" by simp
  have h3: "map_of [(''a.txt'', File (ready ''a.txt''))] (entry.path blob_a) = Some (File (ready ''a.txt''))"
    by (simp add: blob_a_def)
  have e: "updateTree (Sha 1) ''/'' [(''a.txt'', File (ready ''a.txt''))] repo = (Rejected TypeError, repo)"
    by (simp add: run_defs)
  show ?thesis
    using override_prepared_not_returned[OF h1 h2 h3, of "''/''"] h1 h3 e
    by (simp add: blob_a_def ready_def)
qed

subsection \<open>C5: a new directory gives no tree entry\<close>

text \<open>
  C5. A pending file that the base tree does not hold is pushed as the claim says,
  with mode \<^verbatim>\<open>100644\<close> and type \<^verbatim>\<open>blob\<close>, unless its name is a member of
  \<^verbatim>\<open>Object.prototype\<close>: line 161 skips the file \<^verbatim>\<open>constructor\<close>, because
  \<^verbatim>\<open>added.constructor\<close> is a function. A pending directory is not: line 163 tells
  a file from a directory by the property \<^verbatim>\<open>file\<close>, and on the directory \<^verbatim>\<open>docs\<close>
  that holds a file named \<^verbatim>\<open>file\<close> this reads the child. The loop pushes a blob entry
  without id for \<^verbatim>\<open>docs\<close> and starts no nested merge. For a directory without such a
  child the nested merge is started on the null id, which \<^verbatim>\<open>getTree\<close> answers with the
  empty tree without a request (the run is the same when every request is lost), but
  it is rejected like every merge, so no entry of mode \<^verbatim>\<open>040000\<close> is ever made.
\<close>

theorem new_directory_not_emitted:
  "pending [(''b.txt'', File (ready ''b.txt''))] [] =
     [Entry \<lparr>entry.path = ''b.txt'', mode = ''100644'', type = ''blob'', sha = Sha 3\<rparr>] \<and>
   pending [(''constructor'', File (ready ''constructor''))] [] = [] \<and>
   pending [(''docs'', Dir [(''file'', File (ready ''docs/file''))])] [] =
     [Entry \<lparr>entry.path = ''docs'', mode = ''100644'', type = ''blob'', sha = NoSha\<rparr>] \<and>
   updateTree NoSha ''/'' [(''docs'', Dir [(''file'', File (ready ''docs/file''))])] repo
     = (Rejected TypeError, repo) \<and>
   pending [(''docs'', Dir [(''a.txt'', File (ready ''docs/a.txt''))])] [] =
     [Merge NoSha ''docs'' [(''a.txt'', File (ready ''docs/a.txt''))]] \<and>
   getTree NoSha st = (Fulfilled [], st) \<and>
   updateTree NoSha ''docs'' [(''a.txt'', File (ready ''docs/a.txt''))] repo = (Rejected TypeError, repo) \<and>
   updateTree NoSha ''/'' [(''docs'', Dir [(''a.txt'', File (ready ''docs/a.txt''))])] repo
     = (Rejected TypeError, repo) \<and>
   updateTree NoSha ''/'' [(''docs'', Dir [(''a.txt'', File (ready ''docs/a.txt''))])]
       (repo\<lparr>lost := (\<lambda>q. True)\<rparr>)
     = (Rejected TypeError, repo\<lparr>lost := (\<lambda>q. True)\<rparr>)"
  by (simp add: run_defs)

subsection \<open>C9: the paths of \<^verbatim>\<open>updates\<close> are distinct\<close>

text \<open>
  C9. Let the entries of the fetched tree have distinct paths, and let the keys of
  the pending object be distinct, as the keys of an object are. Then no two elements
  of \<^verbatim>\<open>updates\<close> have the same path when the loops are done; no name that the first
  loop marked in \<^verbatim>\<open>added\<close> is pushed by the second loop; and when \<^verbatim>\<open>Promise.all\<close> is
  fulfilled, the array it hands to the callback of line 169, which line 172 names as
  the entries of the tree to create, has distinct paths. This holds of every merge,
  the nested ones included, and with names of \<^verbatim>\<open>Object.prototype\<close> among the paths.
\<close>

theorem updates_distinct_paths:
  assumes "distinct (map entry.path T)" and "distinct (map fst P)"
  shows "distinct (map item_path (loops T P)) \<and>
         set (snd (existing T P)) \<inter> item_path ` set (pending P (snd (existing T P))) = {} \<and>
         (Promise_all (fst (settle_all (loops T P) st)) = Fulfilled ups \<longrightarrow>
            distinct (map (\<lambda>u. entry.path (as_entry u)) ups))"
proof -
  have d: "distinct (map item_path (loops T P))" using assms by (rule loops_distinct)
  have "item_path ` set (pending P (snd (existing T P))) = set (map item_path (pending P (snd (existing T P))))"
    by simp
  then have a: "set (snd (existing T P)) \<inter> item_path ` set (pending P (snd (existing T P))) = {}"
    by (auto simp: pending_paths)
  have "distinct (map (\<lambda>u. entry.path (as_entry u)) ups)"
    if f: "Promise_all (fst (settle_all (loops T P) st)) = Fulfilled ups"
  proof -
    have "fst (settle_all (loops T P) st) = map Fulfilled ups"
      using f by (rule Promise_all_FulfilledD)
    then have "loops T P = map Entry (map as_entry ups)"
      using settle_all_FulfilledD by blast
    then have "map item_path (loops T P) = map (\<lambda>u. entry.path (as_entry u)) ups"
      by (simp add: comp_def)
    then show ?thesis using d by simp
  qed
  then show ?thesis using d a by blast
qed

theorem updates_distinct_paths_witness:
  "distinct (map entry.path [blob_a]) \<and>
   distinct (map fst [(''a.txt'', File (ready ''a.txt'')), (''b.txt'', File (ready ''b.txt''))]) \<and>
   map item_path (loops [blob_a] [(''a.txt'', File (ready ''a.txt'')), (''b.txt'', File (ready ''b.txt''))])
     = [''a.txt'', ''b.txt''] \<and>
   Promise_all (fst (settle_all
       (loops [blob_a] [(''a.txt'', File (ready ''a.txt'')), (''b.txt'', File (ready ''b.txt''))]) repo))
     = Fulfilled [Plain \<lparr>entry.path = ''a.txt'', mode = ''100755'', type = ''blob'', sha = Sha 3\<rparr>,
                  Plain \<lparr>entry.path = ''b.txt'', mode = ''100644'', type = ''blob'', sha = Sha 3\<rparr>] \<and>
   distinct (map (\<lambda>u. entry.path (as_entry u))
     [Plain \<lparr>entry.path = ''a.txt'', mode = ''100755'', type = ''blob'', sha = Sha 3\<rparr>,
      Plain \<lparr>entry.path = ''b.txt'', mode = ''100644'', type = ''blob'', sha = Sha 3\<rparr>])"
proof -
  let ?P = "[(''a.txt'', File (ready ''a.txt'')), (''b.txt'', File (ready ''b.txt''))]"
  let ?ups = "[Plain \<lparr>entry.path = ''a.txt'', mode = ''100755'', type = ''blob'', sha = Sha 3\<rparr>,
               Plain \<lparr>entry.path = ''b.txt'', mode = ''100644'', type = ''blob'', sha = Sha 3\<rparr>]"
  have h1: "distinct (map entry.path [blob_a])" by simp
  have h2: "distinct (map fst ?P)" by simp
  have l: "map item_path (loops [blob_a] ?P) = [''a.txt'', ''b.txt'']" by (simp add: run_defs)
  have f: "Promise_all (fst (settle_all (loops [blob_a] ?P) repo)) = Fulfilled ?ups"
    by (simp add: run_defs)
  show ?thesis
    using updates_distinct_paths[OF h1 h2, of repo ?ups] h1 h2 l f by simp
qed

subsection \<open>C3: what \<^verbatim>\<open>base_tree\<close> is needed for\<close>




subsection \<open>C2: no run moves the branch\<close>


subsection \<open>C6: no commit is created\<close>

text \<open>
  C6. No call of \<^verbatim>\<open>updateFiles\<close> succeeds, and none creates a commit: the call throws
  \<^verbatim>\<open>ReferenceError\<close> for the name \<^verbatim>\<open>uploads\<close> and returns no promise, whatever the files
  and the message. For one new file and the message \<^verbatim>\<open>m\<close> the objects of the
  repository are the four there were.
\<close>

theorem updateFiles_creates_no_commit:
  "fst (updateFiles files opts st) = Thrown (ReferenceError ''uploads'') \<and>
   fst (updateFiles files opts st) \<noteq> Returned (Fulfilled ()) \<and>
   objects (snd (updateFiles [newfile ''a.txt''] \<lparr>options.message = ''m''\<rparr> repo)) =
     [Blob ''old'', Tree [blob_a],
      Commit \<lparr>commit.message = ''init'', tree = Sha 1, parents = []\<rparr>, Blob ''new'']"
  by (simp add: updateFiles_def repo_def)

subsection \<open>C7: no file is placed\<close>

text \<open>
  C7. The files passed to \<^verbatim>\<open>updateFiles\<close> play no part in the run: with any list the
  call does what it does with the empty list. It throws before the loop body places
  the first file, so no directory object is built and no root merge is started,
  for files marked \<^verbatim>\<open>uploaded\<close> and for files not marked alike.
\<close>

theorem updateFiles_places_no_file:
  "updateFiles files opts st = updateFiles [] opts st \<and>
   updateFiles [ready ''a.txt'', newfile ''b/c.txt''] opts repo
     = (Thrown (ReferenceError ''uploads''), repo)"
  by (simp add: updateFiles_def)

subsection \<open>C8: the caller never sees \<^verbatim>\<open>NotFastForward\<close>\<close>

text \<open>
  C8. Whatever the state of the repository and wherever the branch head is, the call
  of \<^verbatim>\<open>updateFiles\<close> throws \<^verbatim>\<open>ReferenceError\<close>. It does not return a promise rejected with
  \<^verbatim>\<open>NotFastForward\<close>; it does not read the branch and sends no reference update, so the
  head stays where the other writer left it.
\<close>

theorem updateFiles_no_not_fast_forward:
  "fst (updateFiles files opts st) \<noteq> Returned (Rejected NotFastForward) \<and>
   fst (updateFiles files opts st) \<noteq> Thrown NotFastForward \<and>
   fst (updateFiles files opts st) = Thrown (ReferenceError ''uploads'') \<and>
   head (snd (updateFiles files opts (st\<lparr>head := h\<rparr>))) = h"
  by (simp add: updateFiles_def)

subsection \<open>C10: no path is split\<close>

text \<open>
  C10. For the path \<^verbatim>\<open>/a//b.txt\<close> and for the path \<^verbatim>\<open>a/b.txt\<close> the call of
  \<^verbatim>\<open>updateFiles\<close> throws at line 82, before line 86 splits a path: the two runs end
  alike, but no file is placed anywhere and no merge is run.
\<close>

theorem updateFiles_splits_no_path:
  "updateFiles [newfile ''/a//b.txt''] opts st = (Thrown (ReferenceError ''uploads''), st) \<and>
   updateFiles [newfile ''a/b.txt''] opts st = (Thrown (ReferenceError ''uploads''), st)"
  by (simp add: updateFiles_def)

end
